theory Spec2Isabelle
  imports Main
begin

section \<open>Python values used by the chess engine\<close>

text \<open>
  Strings are \<^typ>\<open>string\<close>; each \<^typ>\<open>char\<close> stands for the Python character with the
  same code point, so the strings of the engine's model are the Python strings over
  U+0000..U+00FF; the conversion of a position string is modelled a second time on
  arbitrary strings, as lists of code points (\<open>position_to_coords_unicode\<close> below).
  Exceptions are values of \<open>error\<close>, and a call that may raise returns \<open>error + 'a\<close> with
  \<open>Inl\<close> the exception. \<open>OutsideLatin1\<close> is not a Python exception: it marks the one
  place (\<open>chr\<close> of a code point in 256..0x10FFFF) where Python returns a character that
  \<^typ>\<open>char\<close> cannot hold.
\<close>

datatype error = ValueError | KeyError | TypeError | OverflowError | OutsideLatin1

definition ord :: "char \<Rightarrow> int" where
  "ord c = of_char c"

text \<open>\<open>chr(n)\<close>: \<open>OverflowError\<close> outside the range of a C int, \<open>ValueError\<close> outside
  0..0x10FFFF.\<close>

definition chr :: "int \<Rightarrow> error + char" where
  "chr n = (if n < - 2147483648 \<or> 2147483647 < n then Inl OverflowError
            else if n < 0 \<or> 1114111 < n then Inl ValueError
            else if n \<le> 255 then Inr (char_of n)
            else Inl OutsideLatin1)"

text \<open>\<open>str.lower()\<close> on one character: A-Z, and the Latin-1 capitals except the
  multiplication sign, move up by 32; every other character below 256 is unchanged.\<close>

definition lower_char :: "char \<Rightarrow> char" where
  "lower_char c =
     (let n = ord c
      in if (65 \<le> n \<and> n \<le> 90) \<or> (192 \<le> n \<and> n \<le> 222 \<and> n \<noteq> 215)
         then char_of (n + 32) else c)"

definition lower :: "string \<Rightarrow> string" where
  "lower s = map lower_char s"

text \<open>\<open>int(ch)\<close> for a one-character string: the ten ASCII digits parse, anything else
  raises \<open>ValueError\<close>.\<close>

definition int_of_char :: "char \<Rightarrow> error + int" where
  "int_of_char c = (let n = ord c in if 48 \<le> n \<and> n \<le> 57 then Inr (n - 48) else Inl ValueError)"

text \<open>\<open>str(n)\<close> for an integer: decimal digits, a minus sign in front of a negative one.\<close>

definition digit_char :: "nat \<Rightarrow> char" where
  "digit_char d = char_of (ord CHR ''0'' + int d)"

function str_nat :: "nat \<Rightarrow> string" where
  "str_nat n = (if n < 10 then [digit_char n] else str_nat (n div 10) @ [digit_char (n mod 10)])"
  by pat_completeness auto
termination
  by (relation "measure id") auto

declare str_nat.simps [simp del]

definition str :: "int \<Rightarrow> string" where
  "str i = (if i < 0 then CHR ''-'' # str_nat (nat (- i)) else str_nat (nat i))"

section \<open>Class Chess\<close>

definition PIECE_VALUES :: "string \<rightharpoonup> int" where
  "PIECE_VALUES = map_of [(''knight'', 3), (''bishop'', 3), (''rook'', 5), (''queen'', 9), (''king'', 100)]"

definition is_valid_position :: "int \<Rightarrow> int \<Rightarrow> bool" where
  "is_valid_position row col = (0 \<le> row \<and> row \<le> 7 \<and> 0 \<le> col \<and> col \<le> 7)"

definition position_to_coords :: "string \<Rightarrow> error + (int \<times> int)" where
  "position_to_coords position =
     (if length position \<noteq> 2 then Inl ValueError
      else let col = ord (lower_char (position ! 0)) - ord CHR ''a''
           in case int_of_char (position ! 1) of
                Inl e \<Rightarrow> Inl e
              | Inr d \<Rightarrow> Inr (d - 1, col))"

definition coords_to_position :: "int \<Rightarrow> int \<Rightarrow> error + string" where
  "coords_to_position row col =
     (case chr (ord CHR ''a'' + col) of
        Inl e \<Rightarrow> Inl e
      | Inr ch \<Rightarrow> Inr (ch # str (row + 1)))"

text \<open>One ray of a sliding piece: the inner loop \<open>for i in range(1, 8)\<close>, which appends
  while the square is on the board and breaks at the first one that is not.\<close>

primrec slide :: "int \<Rightarrow> int \<Rightarrow> int \<Rightarrow> int \<Rightarrow> int list \<Rightarrow> (int \<times> int) list" where
  "slide row col dr dc [] = []"
| "slide row col dr dc (i # rest) =
     (let new_row = row + dr * i; new_col = col + dc * i
      in if is_valid_position new_row new_col
         then (new_row, new_col) # slide row col dr dc rest
         else [])"

definition get_rook_moves :: "int \<Rightarrow> int \<Rightarrow> (int \<times> int) list" where
  "get_rook_moves row col =
     concat (map (\<lambda>(dr, dc). slide row col dr dc [1..7]) [(0, 1), (0, -1), (1, 0), (-1, 0)])"

definition get_bishop_moves :: "int \<Rightarrow> int \<Rightarrow> (int \<times> int) list" where
  "get_bishop_moves row col =
     concat (map (\<lambda>(dr, dc). slide row col dr dc [1..7]) [(1, 1), (1, -1), (-1, 1), (-1, -1)])"

definition get_queen_moves :: "int \<Rightarrow> int \<Rightarrow> (int \<times> int) list" where
  "get_queen_moves row col = get_rook_moves row col @ get_bishop_moves row col"

text \<open>Knight and king: a fixed list of offsets, each kept when it lands on the board.\<close>

definition step_moves :: "int \<Rightarrow> int \<Rightarrow> (int \<times> int) list \<Rightarrow> (int \<times> int) list" where
  "step_moves row col offsets =
     filter (\<lambda>(new_row, new_col). is_valid_position new_row new_col)
       (map (\<lambda>(dr, dc). (row + dr, col + dc)) offsets)"

definition get_knight_moves :: "int \<Rightarrow> int \<Rightarrow> (int \<times> int) list" where
  "get_knight_moves row col =
     step_moves row col
       [(-2, -1), (-2, 1), (-1, -2), (-1, 2), (1, -2), (1, 2), (2, -1), (2, 1)]"

definition get_king_moves :: "int \<Rightarrow> int \<Rightarrow> (int \<times> int) list" where
  "get_king_moves row col =
     step_moves row col
       [(-1, -1), (-1, 0), (-1, 1), (0, -1), (0, 1), (1, -1), (1, 0), (1, 1)]"

text \<open>The comprehension that ends \<open>get_piece_moves\<close>:
  \<open>[coords_to_position(r, c) for r, c in moves if is_valid_position(r, c)]\<close>; an exception
  raised by \<open>coords_to_position\<close> leaves the comprehension.\<close>

fun positions_of :: "(int \<times> int) list \<Rightarrow> error + string list" where
  "positions_of [] = Inr []"
| "positions_of ((r, c) # moves) =
     (if is_valid_position r c
      then case coords_to_position r c of
             Inl e \<Rightarrow> Inl e
           | Inr p \<Rightarrow> (case positions_of moves of Inl e \<Rightarrow> Inl e | Inr ps \<Rightarrow> Inr (p # ps))
      else positions_of moves)"

definition moves_of_kind :: "string \<Rightarrow> int \<Rightarrow> int \<Rightarrow> (int \<times> int) list" where
  "moves_of_kind piece_type row col =
     (if piece_type = ''rook'' then get_rook_moves row col
      else if piece_type = ''bishop'' then get_bishop_moves row col
      else if piece_type = ''queen'' then get_queen_moves row col
      else if piece_type = ''knight'' then get_knight_moves row col
      else if piece_type = ''king'' then get_king_moves row col
      else [])"

definition get_piece_moves :: "string \<Rightarrow> string \<Rightarrow> string \<Rightarrow> error + string list" where
  "get_piece_moves piece_type position color =
     (case position_to_coords position of
        Inl e \<Rightarrow> Inl e
      | Inr (row, col) \<Rightarrow> positions_of (moves_of_kind (lower piece_type) row col))"

definition can_attack :: "string \<Rightarrow> string \<Rightarrow> string \<Rightarrow> string \<Rightarrow> error + bool" where
  "can_attack piece_type from_pos target_pos color =
     (case get_piece_moves piece_type from_pos color of
        Inl e \<Rightarrow> Inl e
      | Inr possible_moves \<Rightarrow> Inr (target_pos \<in> set possible_moves))"

section \<open>Class MyChessGame\<close>

record MyChessGame =
  white_piece :: string
  white_pos :: string
  black_piece :: string
  black_pos :: string

text \<open>The constructor \<open>__init__\<close> lower-cases its four arguments.\<close>

definition init :: "string \<Rightarrow> string \<Rightarrow> string \<Rightarrow> string \<Rightarrow> MyChessGame" where
  "init wpiece wpos bpiece bpos =
     \<lparr>white_piece = lower wpiece, white_pos = lower wpos,
      black_piece = lower bpiece, black_pos = lower bpos\<rparr>"

definition can_white_attack_black :: "MyChessGame \<Rightarrow> error + bool" where
  "can_white_attack_black self =
     can_attack (white_piece self) (white_pos self) (black_pos self) ''white''"

definition can_black_attack_white :: "MyChessGame \<Rightarrow> error + bool" where
  "can_black_attack_white self =
     can_attack (black_piece self) (black_pos self) (white_pos self) ''black''"

text \<open>The f-strings \<open>"white {piece} wins"\<close> and \<open>"black {piece} wins"\<close>.\<close>

definition white_wins :: "MyChessGame \<Rightarrow> string" where
  "white_wins self = ''white '' @ white_piece self @ '' wins''"

definition black_wins :: "MyChessGame \<Rightarrow> string" where
  "black_wins self = ''black '' @ black_piece self @ '' wins''"

definition determine_winner :: "MyChessGame \<Rightarrow> error + string" where
  "determine_winner self =
     (case PIECE_VALUES (white_piece self) of
        None \<Rightarrow> Inl KeyError
      | Some white_value \<Rightarrow>
     (case PIECE_VALUES (black_piece self) of
        None \<Rightarrow> Inl KeyError
      | Some black_value \<Rightarrow>
     (case can_white_attack_black self of
        Inl e \<Rightarrow> Inl e
      | Inr white_can_attack \<Rightarrow>
     (case can_black_attack_white self of
        Inl e \<Rightarrow> Inl e
      | Inr black_can_attack \<Rightarrow>
          Inr (if white_can_attack \<and> \<not> black_can_attack then white_wins self
               else if black_can_attack \<and> \<not> white_can_attack then black_wins self
               else if white_value > black_value then white_wins self
               else if black_value > white_value then black_wins self
               else ''draw'')))))"

section \<open>ChessGameGUI.analyze_position\<close>

text \<open>
  \<open>board_pieces\<close> is a dictionary from \<open>(row, col)\<close> to \<open>{'piece': ..., 'color': ...}\<close>,
  read in insertion order: an association list. The entries that \<open>analyze_position\<close>
  collects per colour are the dictionaries \<open>{'piece', 'position', 'coords'}\<close>.
\<close>

record piece_info =
  piece :: string
  color :: string

type_synonym board = "((int \<times> int) \<times> piece_info) list"

record listed_piece =
  listed_kind :: string
  listed_position :: string
  listed_coords :: "int \<times> int"

text \<open>The loop that fills \<open>pieces_by_color\<close>; a colour other than the two keys of
  that dictionary raises \<open>KeyError\<close>.\<close>

fun list_pieces ::
  "board \<Rightarrow> listed_piece list \<Rightarrow> listed_piece list \<Rightarrow> error + (listed_piece list \<times> listed_piece list)"
where
  "list_pieces [] whites blacks = Inr (whites, blacks)"
| "list_pieces (((row, col), piece_info) # rest) whites blacks =
     (case coords_to_position row col of
        Inl e \<Rightarrow> Inl e
      | Inr pos \<Rightarrow>
          (let entry = \<lparr>listed_kind = piece piece_info, listed_position = pos,
                        listed_coords = (row, col)\<rparr>
           in if color piece_info = ''white'' then list_pieces rest (whites @ [entry]) blacks
              else if color piece_info = ''black'' then list_pieces rest whites (blacks @ [entry])
              else Inl KeyError))"

text \<open>The two nested loops of the attack analysis, with the running counter.\<close>

fun count_against :: "listed_piece \<Rightarrow> listed_piece list \<Rightarrow> string \<Rightarrow> int \<Rightarrow> error + int" where
  "count_against attacker [] side attacks = Inr attacks"
| "count_against attacker (defender # rest) side attacks =
     (case can_attack (listed_kind attacker) (listed_position attacker)
             (listed_position defender) side of
        Inl e \<Rightarrow> Inl e
      | Inr hit \<Rightarrow> count_against attacker rest side (if hit then attacks + 1 else attacks))"

fun count_attacks ::
  "listed_piece list \<Rightarrow> listed_piece list \<Rightarrow> string \<Rightarrow> int \<Rightarrow> error + int" where
  "count_attacks [] defenders side attacks = Inr attacks"
| "count_attacks (attacker # rest) defenders side attacks =
     (case count_against attacker defenders side attacks of
        Inl e \<Rightarrow> Inl e
      | Inr attacks' \<Rightarrow> count_attacks rest defenders side attacks')"

text \<open>\<open>sum(PIECE_VALUES[p['piece']] for p in pieces)\<close>.\<close>

fun total_value :: "listed_piece list \<Rightarrow> int \<Rightarrow> error + int" where
  "total_value [] acc = Inr acc"
| "total_value (p # rest) acc =
     (case PIECE_VALUES (listed_kind p) of
        None \<Rightarrow> Inl KeyError
      | Some v \<Rightarrow> total_value rest (acc + v))"

text \<open>The last line of the report, under the heading WINNER PREDICTION.\<close>

datatype prediction = WHITE_IS_LIKELY_TO_WIN | BLACK_IS_LIKELY_TO_WIN | POSITION_IS_ROUGHLY_EQUAL

text \<open>\<open>analyze_position\<close>, reduced to the prediction it writes. With fewer than two
  pieces on the board it shows a message box and returns without a report: \<open>None\<close>.\<close>

definition analyze_position :: "board \<Rightarrow> error + prediction option" where
  "analyze_position board_pieces =
     (if length board_pieces < 2 then Inr None
      else case list_pieces board_pieces [] [] of
        Inl e \<Rightarrow> Inl e
      | Inr (whites, blacks) \<Rightarrow>
     (case count_attacks whites blacks ''white'' 0 of
        Inl e \<Rightarrow> Inl e
      | Inr white_attacks \<Rightarrow>
     (case count_attacks blacks whites ''black'' 0 of
        Inl e \<Rightarrow> Inl e
      | Inr black_attacks \<Rightarrow>
     (case total_value whites 0 of
        Inl e \<Rightarrow> Inl e
      | Inr white_value \<Rightarrow>
     (case total_value blacks 0 of
        Inl e \<Rightarrow> Inl e
      | Inr black_value \<Rightarrow>
          Inr (Some
            (if white_value > black_value \<and> white_attacks \<ge> black_attacks
               then WHITE_IS_LIKELY_TO_WIN
             else if black_value > white_value \<and> black_attacks \<ge> white_attacks
               then BLACK_IS_LIKELY_TO_WIN
             else POSITION_IS_ROUGHLY_EQUAL)))))))"

section \<open>Squares and their names\<close>

text \<open>The algebraic name of a square as the data model gives it: file letter
  \<open>'a' + col\<close>, rank digit \<open>'1' + row\<close>.\<close>

definition algebraic :: "int \<Rightarrow> int \<Rightarrow> string" where
  "algebraic row col = [char_of (ord CHR ''a'' + col), char_of (ord CHR ''1'' + row)]"

text \<open>A valid position string: two characters, a file letter a..h in either case and a
  rank digit 1..8.\<close>

definition valid_algebraic :: "string \<Rightarrow> bool" where
  "valid_algebraic p =
     (length p = 2 \<and> lower_char (p ! 0) \<in> set ''abcdefgh'' \<and> p ! 1 \<in> set ''12345678'')"

definition supported_kinds :: "string set" where
  "supported_kinds = {''rook'', ''bishop'', ''queen'', ''knight'', ''king''}"

text \<open>\<open>attacks\<close> as the geometry engine's contract words it: true iff the target square is
  a member of the moves of the kind from the starting square.\<close>

definition attacks :: "string \<Rightarrow> int \<times> int \<Rightarrow> int \<times> int \<Rightarrow> bool" where
  "attacks kind from_square target_square =
     (target_square \<in> set (moves_of_kind kind (fst from_square) (snd from_square)))"

text \<open>The precedence of the two-piece verdict, following the words of the
  specification: one-sided attack first, then strictly higher material, then draw.\<close>

definition precedence_verdict :: "bool \<Rightarrow> bool \<Rightarrow> int \<Rightarrow> int \<Rightarrow> string \<Rightarrow> string \<Rightarrow> string" where
  "precedence_verdict white_attacks black_attacks white_value black_value white black =
     (if white_attacks \<noteq> black_attacks then (if white_attacks then white else black)
      else if white_value \<noteq> black_value then (if white_value > black_value then white else black)
      else ''draw'')"

text \<open>What every generated move list satisfies on the board: no square twice, not the
  starting square, every square on the board.\<close>

definition sound_moves :: "int \<Rightarrow> int \<Rightarrow> (int \<times> int) list \<Rightarrow> bool" where
  "sound_moves r c moves =
     (distinct moves \<and> (r, c) \<notin> set moves \<and> list_all (\<lambda>(a, b). is_valid_position a b) moves)"

section \<open>Positions with several pieces\<close>

text \<open>A board as the GUI can build it: every key a square of the board, every piece one
  of the five kinds of its buttons, every colour \<open>white\<close> or \<open>black\<close>.\<close>

definition well_formed_board :: "board \<Rightarrow> bool" where
  "well_formed_board board_pieces =
     list_all (\<lambda>((row, col), info). is_valid_position row col \<and> piece info \<in> supported_kinds
                 \<and> (color info = ''white'' \<or> color info = ''black'')) board_pieces"

text \<open>The pieces of one side, in storage order, each with its kind, the name of its
  square and its coordinates.\<close>

definition listed :: "(int \<times> int) \<times> piece_info \<Rightarrow> listed_piece" where
  "listed entry =
     \<lparr>listed_kind = piece (snd entry),
      listed_position = algebraic (fst (fst entry)) (snd (fst entry)),
      listed_coords = fst entry\<rparr>"

definition pieces_of :: "string \<Rightarrow> board \<Rightarrow> listed_piece list" where
  "pieces_of side board_pieces =
     map listed (filter (\<lambda>entry. color (snd entry) = side) board_pieces)"

text \<open>The attack pairs of one side against the other: the ordered pairs (attacker,
  defender) for which the geometry has the attacker attack the defender's square.\<close>

definition attack_pairs :: "listed_piece list \<Rightarrow> listed_piece list \<Rightarrow> (listed_piece \<times> listed_piece) list" where
  "attack_pairs attackers defenders =
     filter (\<lambda>(a, d). attacks (listed_kind a) (listed_coords a) (listed_coords d))
       (List.product attackers defenders)"

text \<open>The material value of a side: the sum of the values of its pieces.\<close>

definition material_value :: "listed_piece list \<Rightarrow> int" where
  "material_value pieces =
     sum_list (map (\<lambda>p. case PIECE_VALUES (listed_kind p) of Some v \<Rightarrow> v | None \<Rightarrow> 0) pieces)"

definition listed_ok :: "listed_piece \<Rightarrow> bool" where
  "listed_ok p =
     (listed_kind p \<in> supported_kinds
      \<and> is_valid_position (fst (listed_coords p)) (snd (listed_coords p))
      \<and> listed_position p = algebraic (fst (listed_coords p)) (snd (listed_coords p)))"

text \<open>Two positions with three and four pieces: two white rooks on a1 and b2 against a
  black knight on h8, and white knights on b1 and h1 against black bishops on c3 and
  b8.\<close>

definition rooks_against_knight :: board where
  "rooks_against_knight =
     [((0, 0), \<lparr>piece = ''rook'', color = ''white''\<rparr>),
      ((1, 1), \<lparr>piece = ''rook'', color = ''white''\<rparr>),
      ((7, 7), \<lparr>piece = ''knight'', color = ''black''\<rparr>)]"

definition knights_against_bishops :: board where
  "knights_against_bishops =
     [((0, 1), \<lparr>piece = ''knight'', color = ''white''\<rparr>),
      ((0, 7), \<lparr>piece = ''knight'', color = ''white''\<rparr>),
      ((2, 2), \<lparr>piece = ''bishop'', color = ''black''\<rparr>),
      ((7, 1), \<lparr>piece = ''bishop'', color = ''black''\<rparr>)]"

section \<open>The conversion on arbitrary Python strings\<close>

text \<open>
  \<open>position_to_coords\<close> above reads strings over U+0000..U+00FF. The same source lines
  on an arbitrary Python string: a string is the list of its code points, and the two
  tables of the Python runtime that the function consults are parameters. \<open>lower_of c\<close>
  is \<open>s.lower()\<close> for the one-character string \<open>s\<close> of code point \<open>c\<close>, itself a string
  (of two characters for U+0130, on which \<open>ord\<close> then raises \<open>TypeError\<close>); \<open>int_of c\<close> is
  \<open>int(s)\<close> for that string, \<open>None\<close> where \<open>int\<close> raises \<open>ValueError\<close>.
\<close>

definition position_to_coords_unicode ::
  "(int \<Rightarrow> int list) \<Rightarrow> (int \<Rightarrow> int option) \<Rightarrow> int list \<Rightarrow> error + (int \<times> int)" where
  "position_to_coords_unicode lower_of int_of position =
     (if length position \<noteq> 2 then Inl ValueError
      else case lower_of (position ! 0) of
             [l] \<Rightarrow>
               (let col = l - ord CHR ''a''
                in case int_of (position ! 1) of
                     None \<Rightarrow> Inl ValueError
                   | Some d \<Rightarrow> Inr (d - 1, col))
           | _ \<Rightarrow> Inl TypeError)"

text \<open>What is used of Python's tables on ASCII: capitals lower-case to their small
  letters, small letters to themselves, and the digits 0..9 parse to their values.\<close>

definition ascii_tables :: "(int \<Rightarrow> int list) \<Rightarrow> (int \<Rightarrow> int option) \<Rightarrow> bool" where
  "ascii_tables lower_of int_of =
     ((\<forall>n. 65 \<le> n \<and> n \<le> 90 \<longrightarrow> lower_of n = [n + 32])
      \<and> (\<forall>n. 97 \<le> n \<and> n \<le> 122 \<longrightarrow> lower_of n = [n])
      \<and> (\<forall>n. 48 \<le> n \<and> n \<le> 57 \<longrightarrow> int_of n = Some (n - 48)))"

text \<open>The tables that the model over U+0000..U+00FF amounts to.\<close>

definition latin1_lower :: "int \<Rightarrow> int list" where
  "latin1_lower n = [ord (lower_char (char_of n))]"

definition latin1_int :: "int \<Rightarrow> int option" where
  "latin1_int n = (case int_of_char (char_of n) of Inl e \<Rightarrow> None | Inr d \<Rightarrow> Some d)"

text \<open>An excerpt of Python's tables for evaluating examples: ASCII, the capital I with
  dot above U+0130, whose lower case is the two characters U+0069 U+0307, and the
  Arabic-Indic digits U+0660..U+0669.\<close>

definition lower_excerpt :: "int \<Rightarrow> int list" where
  "lower_excerpt n =
     (if 65 \<le> n \<and> n \<le> 90 then [n + 32] else if n = 304 then [105, 775] else [n])"

definition int_excerpt :: "int \<Rightarrow> int option" where
  "int_excerpt n =
     (if 48 \<le> n \<and> n \<le> 57 then Some (n - 48)
      else if 1632 \<le> n \<and> n \<le> 1641 then Some (n - 1632)
      else None)"

section \<open>Characters and square names\<close>

lemma char_of_eq_iff_ord: "char_of (n::int) = c \<longleftrightarrow> n mod 256 = ord c"
  unfolding ord_def by (metis of_char_of char_of_char)

lemma ord_bounds: "0 \<le> ord c \<and> ord c \<le> 255"
proof -
  have e: "ord c = ord c mod 256"
    unfolding ord_def by (metis of_char_of char_of_char)
  have "0 \<le> ord c mod 256" and "ord c mod 256 < 256"
    by simp_all
  with e show ?thesis
    by arith
qed

lemma char_of_ord: "char_of (ord c) = c"
  by (simp add: ord_def)

lemma ord_char_of: "0 \<le> n \<Longrightarrow> n \<le> 255 \<Longrightarrow> ord (char_of n) = n"
  by (simp add: ord_def of_char_of)

lemma coord_cases:
  "0 \<le> r \<Longrightarrow> r \<le> 7 \<Longrightarrow>
   r = 0 \<or> r = 1 \<or> r = 2 \<or> r = 3 \<or> r = 4 \<or> r = 5 \<or> r = 6 \<or> r = (7::int)"
  by arith

lemma file_letter_iff: "c \<in> set ''abcdefgh'' \<longleftrightarrow> 0 \<le> ord c - ord CHR ''a'' \<and> ord c - ord CHR ''a'' \<le> 7"
proof
  assume "c \<in> set ''abcdefgh''"
  then show "0 \<le> ord c - ord CHR ''a'' \<and> ord c - ord CHR ''a'' \<le> 7"
    by (auto simp: ord_def)
next
  assume "0 \<le> ord c - ord CHR ''a'' \<and> ord c - ord CHR ''a'' \<le> 7"
  then have "ord c - ord CHR ''a'' = 0 \<or> ord c - ord CHR ''a'' = 1 \<or> ord c - ord CHR ''a'' = 2
      \<or> ord c - ord CHR ''a'' = 3 \<or> ord c - ord CHR ''a'' = 4 \<or> ord c - ord CHR ''a'' = 5
      \<or> ord c - ord CHR ''a'' = 6 \<or> ord c - ord CHR ''a'' = 7"
    using coord_cases by blast
  then have "ord c \<in> {97, 98, 99, 100, 101, 102, 103, 104}"
    by (auto simp: ord_def)
  then have "char_of (ord c) \<in> char_of ` {97, 98, 99, 100, 101, 102, 103, 104 :: int}"
    by (rule imageI)
  then show "c \<in> set ''abcdefgh''"
    by (auto simp: ord_def char_of_eq_iff_ord)
qed

lemma digit_iff: "c \<in> set ''0123456789'' \<longleftrightarrow> 48 \<le> ord c \<and> ord c \<le> 57"
proof
  assume "c \<in> set ''0123456789''"
  then show "48 \<le> ord c \<and> ord c \<le> 57"
    by (auto simp: ord_def)
next
  assume "48 \<le> ord c \<and> ord c \<le> 57"
  then have "ord c \<in> {48, 49, 50, 51, 52, 53, 54, 55, 56, 57}"
    by (simp; arith)
  then have "char_of (ord c) \<in> char_of ` {48, 49, 50, 51, 52, 53, 54, 55, 56, 57 :: int}"
    by (rule imageI)
  then show "c \<in> set ''0123456789''"
    by (auto simp: ord_def char_of_eq_iff_ord)
qed

lemma rank_digit_iff: "c \<in> set ''12345678'' \<longleftrightarrow> 49 \<le> ord c \<and> ord c \<le> 56"
proof
  assume "c \<in> set ''12345678''"
  then show "49 \<le> ord c \<and> ord c \<le> 56"
    by (auto simp: ord_def)
next
  assume "49 \<le> ord c \<and> ord c \<le> 56"
  then have "ord c \<in> {49, 50, 51, 52, 53, 54, 55, 56}"
    by (simp; arith)
  then have "char_of (ord c) \<in> char_of ` {49, 50, 51, 52, 53, 54, 55, 56 :: int}"
    by (rule imageI)
  then show "c \<in> set ''12345678''"
    by (auto simp: ord_def char_of_eq_iff_ord)
qed

lemma int_of_char_eq:
  "int_of_char c = (if c \<in> set ''0123456789'' then Inr (ord c - 48) else Inl ValueError)"
  unfolding digit_iff by (simp add: int_of_char_def Let_def)

lemma str_rank: "0 \<le> r \<Longrightarrow> r \<le> 7 \<Longrightarrow> str (r + 1) = [char_of (ord CHR ''1'' + r)]"
  using coord_cases [of r]
  by (auto simp: str_def str_nat.simps digit_char_def ord_def char_of_eq_iff_ord)

lemma chr_file: "0 \<le> c \<Longrightarrow> c \<le> 7 \<Longrightarrow> chr (ord CHR ''a'' + c) = Inr (char_of (ord CHR ''a'' + c))"
  by (simp add: chr_def ord_def)

lemma coords_to_position_valid:
  "is_valid_position r c \<Longrightarrow> coords_to_position r c = Inr (algebraic r c)"
  by (simp add: is_valid_position_def coords_to_position_def chr_file str_rank algebraic_def)

lemma position_to_coords_algebraic:
  "is_valid_position r c \<Longrightarrow> position_to_coords (algebraic r c) = Inr (r, c)"
  using coord_cases [of r] coord_cases [of c]
  by (auto simp: is_valid_position_def position_to_coords_def algebraic_def ord_def
      lower_char_def int_of_char_def of_char_of)

lemma valid_algebraic_algebraic:
  "is_valid_position r c \<Longrightarrow> valid_algebraic (algebraic r c)"
  using coord_cases [of r] coord_cases [of c]
  by (auto simp: is_valid_position_def valid_algebraic_def algebraic_def ord_def
      lower_char_def of_char_of char_of_eq_iff_ord)

lemma lower_algebraic:
  "is_valid_position r c \<Longrightarrow> lower (algebraic r c) = algebraic r c"
  using coord_cases [of r] coord_cases [of c]
  by (auto simp: is_valid_position_def lower_def algebraic_def ord_def lower_char_def of_char_of)

lemma algebraic_inject:
  assumes "is_valid_position r c" and "is_valid_position r' c'"
    and "algebraic r c = algebraic r' c'"
  shows "r = r' \<and> c = c'"
proof -
  have "position_to_coords (algebraic r c) = position_to_coords (algebraic r' c')"
    using assms(3) by simp
  then show ?thesis
    using assms(1,2) by (simp add: position_to_coords_algebraic)
qed

lemma two_chars: "length p = 2 \<Longrightarrow> p = [p ! 0, p ! 1]"
  by (cases p; cases "tl p"; auto)

lemma valid_algebraic_parse:
  assumes "valid_algebraic p"
  shows "\<exists>r c. is_valid_position r c \<and> position_to_coords p = Inr (r, c) \<and> algebraic r c = lower p"
proof -
  from assms have l: "length p = 2" and f: "lower_char (p ! 0) \<in> set ''abcdefgh''"
    and d: "p ! 1 \<in> set ''12345678''"
    by (auto simp: valid_algebraic_def)
  from l have p: "p = [p ! 0, p ! 1]"
    by (rule two_chars)
  define r where "r = ord (p ! 1) - ord CHR ''1''"
  define c where "c = ord (lower_char (p ! 0)) - ord CHR ''a''"
  from d have r: "0 \<le> r \<and> r \<le> 7 \<and> int_of_char (p ! 1) = Inr (r + 1)
      \<and> char_of (ord CHR ''1'' + r) = p ! 1 \<and> lower_char (p ! 1) = p ! 1"
    unfolding r_def by (auto simp: ord_def int_of_char_def lower_char_def)
  from f have c: "0 \<le> c \<and> c \<le> 7 \<and> char_of (ord CHR ''a'' + c) = lower_char (p ! 0)"
    unfolding c_def by (auto simp: ord_def)
  have "is_valid_position r c"
    using r c by (simp add: is_valid_position_def)
  moreover have "position_to_coords p = Inr (r, c)"
    using l r by (simp add: position_to_coords_def c_def)
  moreover have "algebraic r c = lower p"
    using r c by (subst p) (simp add: algebraic_def lower_def)
  ultimately show ?thesis
    by blast
qed

lemma position_to_coords_on_board:
  assumes "position_to_coords p = Inr (r, c)"
  shows "is_valid_position r c \<longleftrightarrow> valid_algebraic p"
proof -
  from assms have l: "length p = 2"
    by (auto simp: position_to_coords_def split: if_splits)
  from assms l have d: "p ! 1 \<in> set ''0123456789''" and r: "r = ord (p ! 1) - 48 - 1"
    and c: "c = ord (lower_char (p ! 0)) - ord CHR ''a''"
    by (auto simp: position_to_coords_def int_of_char_eq Let_def split: if_splits)
  have "(0 \<le> r \<and> r \<le> 7) \<longleftrightarrow> p ! 1 \<in> set ''12345678''"
    unfolding rank_digit_iff r by arith
  moreover have "(0 \<le> c \<and> c \<le> 7) \<longleftrightarrow> lower_char (p ! 0) \<in> set ''abcdefgh''"
    unfolding file_letter_iff c ..
  ultimately show ?thesis
    using l by (auto simp: is_valid_position_def valid_algebraic_def)
qed

section \<open>Colour independence\<close>

text \<open>
  C7. For every piece kind and every square, \<open>get_piece_moves\<close>, and hence \<open>can_attack\<close>,
  returns the same result for the colour \<open>white\<close> as for the colour \<open>black\<close>: the colour
  argument has no influence on the computed moves. (It holds for any two colour strings
  and any position string, with the same exception raised on either side.)
\<close>

theorem color_is_ignored:
  "get_piece_moves piece_type position ''white'' = get_piece_moves piece_type position ''black''
   \<and> can_attack piece_type from_pos target_pos ''white''
     = can_attack piece_type from_pos target_pos ''black''
   \<and> get_piece_moves piece_type position c1 = get_piece_moves piece_type position c2
   \<and> can_attack piece_type from_pos target_pos c1 = can_attack piece_type from_pos target_pos c2"
  by (simp add: get_piece_moves_def can_attack_def)

section \<open>Round trip between squares and position strings\<close>

text \<open>
  C3. For every valid square \<open>(r, c)\<close> (row and column in 0..7), \<open>coords_to_position\<close>
  returns a valid position string in lower case and \<open>position_to_coords\<close> of that
  string returns \<open>(r, c)\<close>; for every valid two-character position string \<open>p\<close>,
  \<open>position_to_coords\<close> returns a valid square and \<open>coords_to_position\<close> of that square
  returns \<open>p\<close> in lower case. The two conversions are inverse to each other between the
  valid squares and the lower-case valid position strings.
\<close>

theorem conversion_round_trip:
  assumes "is_valid_position r c" and "valid_algebraic p"
  shows "(\<exists>q. coords_to_position r c = Inr q \<and> valid_algebraic q \<and> lower q = q
              \<and> position_to_coords q = Inr (r, c))
       \<and> (\<exists>r' c'. position_to_coords p = Inr (r', c') \<and> is_valid_position r' c'
              \<and> coords_to_position r' c' = Inr (lower p))"
proof
  show "\<exists>q. coords_to_position r c = Inr q \<and> valid_algebraic q \<and> lower q = q
            \<and> position_to_coords q = Inr (r, c)"
    using assms(1)
    by (simp add: coords_to_position_valid valid_algebraic_algebraic lower_algebraic
        position_to_coords_algebraic)
next
  from valid_algebraic_parse [OF assms(2)]
  obtain r' c' where "is_valid_position r' c'" and "position_to_coords p = Inr (r', c')"
    and "algebraic r' c' = lower p"
    by blast
  then show "\<exists>r' c'. position_to_coords p = Inr (r', c') \<and> is_valid_position r' c'
      \<and> coords_to_position r' c' = Inr (lower p)"
    by (metis coords_to_position_valid)
qed

theorem conversion_round_trip_witness:
  "is_valid_position 3 4 \<and> valid_algebraic ''E4''
   \<and> (\<exists>q. coords_to_position 3 4 = Inr q \<and> valid_algebraic q \<and> lower q = q
              \<and> position_to_coords q = Inr (3, 4))
   \<and> (\<exists>r' c'. position_to_coords ''E4'' = Inr (r', c') \<and> is_valid_position r' c'
              \<and> coords_to_position r' c' = Inr (lower ''E4''))"
proof -
  have h1: "is_valid_position 3 4"
    by (simp add: is_valid_position_def)
  have h2: "valid_algebraic ''E4''"
    by (simp add: valid_algebraic_def lower_char_def ord_def char_of_eq_iff_ord)
  show ?thesis
    using h1 h2 conversion_round_trip [OF h1 h2] by blast
qed

section \<open>The moves of a piece as position strings\<close>

lemma positions_of_eq:
  "positions_of moves =
     Inr (map (\<lambda>(r, c). algebraic r c) (filter (\<lambda>(r, c). is_valid_position r c) moves))"
  by (induction moves rule: positions_of.induct) (simp_all add: coords_to_position_valid)

lemma get_piece_moves_eq:
  assumes "position_to_coords position = Inr (row, col)"
  shows "get_piece_moves piece_type position side =
     Inr (map (\<lambda>(r, c). algebraic r c)
           (filter (\<lambda>(r, c). is_valid_position r c) (moves_of_kind (lower piece_type) row col)))"
  using assms by (simp add: get_piece_moves_def positions_of_eq)

text \<open>
  C6. For every piece-type string that is, up to letter case, none of the five supported
  kinds, and every valid position string, \<open>get_piece_moves\<close> returns the empty list and
  raises no error.
\<close>

theorem unsupported_kind_has_no_moves:
  assumes "lower piece_type \<notin> supported_kinds" and "valid_algebraic position"
  shows "get_piece_moves piece_type position side = Inr []"
proof -
  from valid_algebraic_parse [OF assms(2)]
  obtain r c where "position_to_coords position = Inr (r, c)"
    by blast
  moreover have "moves_of_kind (lower piece_type) r c = []"
    using assms(1) by (simp add: moves_of_kind_def supported_kinds_def)
  ultimately show ?thesis
    by (simp add: get_piece_moves_eq)
qed

theorem unsupported_kind_has_no_moves_witness:
  "lower ''Pawn'' \<notin> supported_kinds \<and> valid_algebraic ''e2''
   \<and> get_piece_moves ''Pawn'' ''e2'' ''white'' = Inr []"
proof -
  have h1: "lower ''Pawn'' \<notin> supported_kinds"
    by (simp add: lower_def lower_char_def ord_def supported_kinds_def char_of_eq_iff_ord)
  have h2: "valid_algebraic ''e2''"
    by (simp add: valid_algebraic_def lower_char_def ord_def)
  show ?thesis
    using h1 h2 unsupported_kind_has_no_moves [OF h1 h2] by simp
qed

section \<open>Unknown kinds in a two-piece game\<close>

text \<open>
  C9. For every two-piece game in which the kind of either piece is not a key of
  \<open>PIECE_VALUES\<close>, \<open>determine_winner\<close> raises \<open>KeyError\<close>; the lookup comes before any
  attack is evaluated, so this holds whatever the two position strings are, also when
  they would make the attack test raise.
\<close>

theorem determine_winner_unknown_kind:
  assumes "white_piece game \<notin> dom PIECE_VALUES \<or> black_piece game \<notin> dom PIECE_VALUES"
  shows "determine_winner game = Inl KeyError"
  using assms by (auto simp: determine_winner_def split: option.splits)

theorem determine_winner_unknown_kind_witness:
  "white_piece (init ''Pawn'' ''e2'' ''Queen'' ''d8'') \<notin> dom PIECE_VALUES
   \<and> determine_winner (init ''Pawn'' ''e2'' ''Queen'' ''d8'') = Inl KeyError"
proof -
  have "lower ''Pawn'' = ''pawn''"
    by (simp add: lower_def lower_char_def ord_def char_of_eq_iff_ord)
  then have h: "white_piece (init ''Pawn'' ''e2'' ''Queen'' ''d8'') \<notin> dom PIECE_VALUES"
    by (simp add: init_def PIECE_VALUES_def dom_def)
  then have h': "white_piece (init ''Pawn'' ''e2'' ''Queen'' ''d8'') \<notin> dom PIECE_VALUES
      \<or> black_piece (init ''Pawn'' ''e2'' ''Queen'' ''d8'') \<notin> dom PIECE_VALUES"
    by (rule disjI1)
  show ?thesis
    using h determine_winner_unknown_kind [OF h'] by blast
qed

section \<open>Geometry on the 64 squares\<close>

lemma board_coords:
  "is_valid_position r c \<Longrightarrow>
   r \<in> set [0, 1, 2, 3, 4, 5, 6, 7] \<and> c \<in> set [0, 1, 2, 3, 4, 5, 6, 7]"
  using coord_cases [of r] coord_cases [of c] by (auto simp: is_valid_position_def)

lemma rook_sound_all:
  "\<forall>r\<in>set [0, 1, 2, 3, 4, 5, 6, 7]. \<forall>c\<in>set [0, 1, 2, 3, 4, 5, 6, 7].
     sound_moves r c (get_rook_moves r c)"
  by code_simp

lemma bishop_sound_all:
  "\<forall>r\<in>set [0, 1, 2, 3, 4, 5, 6, 7]. \<forall>c\<in>set [0, 1, 2, 3, 4, 5, 6, 7].
     sound_moves r c (get_bishop_moves r c)"
  by code_simp

lemma queen_sound_all:
  "\<forall>r\<in>set [0, 1, 2, 3, 4, 5, 6, 7]. \<forall>c\<in>set [0, 1, 2, 3, 4, 5, 6, 7].
     sound_moves r c (get_queen_moves r c)"
  by code_simp

lemma knight_sound_all:
  "\<forall>r\<in>set [0, 1, 2, 3, 4, 5, 6, 7]. \<forall>c\<in>set [0, 1, 2, 3, 4, 5, 6, 7].
     sound_moves r c (get_knight_moves r c)"
  by code_simp

lemma king_sound_all:
  "\<forall>r\<in>set [0, 1, 2, 3, 4, 5, 6, 7]. \<forall>c\<in>set [0, 1, 2, 3, 4, 5, 6, 7].
     sound_moves r c (get_king_moves r c)"
  by code_simp

lemma moves_of_kind_sound:
  assumes "is_valid_position r c"
  shows "sound_moves r c (moves_of_kind kind r c)"
proof -
  from board_coords [OF assms]
  have r: "r \<in> set [0, 1, 2, 3, 4, 5, 6, 7]" and c: "c \<in> set [0, 1, 2, 3, 4, 5, 6, 7]"
    by blast+
  have "sound_moves r c (get_rook_moves r c)" "sound_moves r c (get_bishop_moves r c)"
    "sound_moves r c (get_queen_moves r c)" "sound_moves r c (get_knight_moves r c)"
    "sound_moves r c (get_king_moves r c)"
    using r c rook_sound_all bishop_sound_all queen_sound_all knight_sound_all king_sound_all
    by blast+
  moreover have "sound_moves r c []"
    by (simp add: sound_moves_def)
  ultimately show ?thesis
    by (simp add: moves_of_kind_def)
qed

lemma rook_count_all:
  "\<forall>r\<in>set [0, 1, 2, 3, 4, 5, 6, 7]. \<forall>c\<in>set [0, 1, 2, 3, 4, 5, 6, 7].
     length (get_rook_moves r c) = 14
     \<and> length (filter (\<lambda>(a, b). a = r) (get_rook_moves r c)) = 7
     \<and> length (filter (\<lambda>(a, b). b = c) (get_rook_moves r c)) = 7"
  by code_simp

lemma filter_valid_sound:
  "sound_moves r c moves \<Longrightarrow> filter (\<lambda>(a, b). is_valid_position a b) moves = moves"
  by (auto simp: sound_moves_def list_all_iff intro: filter_True)

lemma get_piece_moves_valid:
  assumes "position_to_coords position = Inr (r, c)" and "is_valid_position r c"
  shows "get_piece_moves piece_type position side =
     Inr (map (\<lambda>(a, b). algebraic a b) (moves_of_kind (lower piece_type) r c))"
  using assms
  by (simp add: get_piece_moves_eq filter_valid_sound [OF moves_of_kind_sound])

lemma algebraic_inj_on_sound:
  assumes "sound_moves r c moves"
  shows "inj_on (\<lambda>(a, b). algebraic a b) (set moves)"
proof (rule inj_onI)
  fix x y
  assume x: "x \<in> set moves" and y: "y \<in> set moves"
    and e: "(case x of (a, b) \<Rightarrow> algebraic a b) = (case y of (a, b) \<Rightarrow> algebraic a b)"
  from assms x y have "is_valid_position (fst x) (snd x)" "is_valid_position (fst y) (snd y)"
    by (auto simp: sound_moves_def list_all_iff)
  with e show "x = y"
    using algebraic_inject [of "fst x" "snd x" "fst y" "snd y"]
    by (cases x; cases y; simp)
qed

lemma rook_squares_all:
  "\<forall>r\<in>set [0, 1, 2, 3, 4, 5, 6, 7]. \<forall>c\<in>set [0, 1, 2, 3, 4, 5, 6, 7].
     list_all (\<lambda>(a, b). (a = r \<and> b \<noteq> c) \<or> (a \<noteq> r \<and> b = c)) (get_rook_moves r c)
     \<and> (\<forall>a\<in>set [0, 1, 2, 3, 4, 5, 6, 7]. \<forall>b\<in>set [0, 1, 2, 3, 4, 5, 6, 7].
          (a = r \<and> b \<noteq> c) \<or> (a \<noteq> r \<and> b = c) \<longrightarrow> (a, b) \<in> set (get_rook_moves r c))"
  by code_simp

lemma rook_squares:
  assumes "is_valid_position r c"
  shows "(a, b) \<in> set (get_rook_moves r c)
     \<longleftrightarrow> is_valid_position a b \<and> ((a = r \<and> b \<noteq> c) \<or> (a \<noteq> r \<and> b = c))"
proof
  from board_coords [OF assms]
  have r: "r \<in> set [0, 1, 2, 3, 4, 5, 6, 7]" and c: "c \<in> set [0, 1, 2, 3, 4, 5, 6, 7]"
    by blast+
  with rook_sound_all have s: "sound_moves r c (get_rook_moves r c)"
    by blast
  from r c rook_squares_all
  have l: "list_all (\<lambda>(a, b). (a = r \<and> b \<noteq> c) \<or> (a \<noteq> r \<and> b = c)) (get_rook_moves r c)"
    by blast
  {
    assume m: "(a, b) \<in> set (get_rook_moves r c)"
    with s have "is_valid_position a b"
      by (auto simp: sound_moves_def list_all_iff)
    moreover from m l have "(a = r \<and> b \<noteq> c) \<or> (a \<noteq> r \<and> b = c)"
      by (auto simp: list_all_iff)
    ultimately show "is_valid_position a b \<and> ((a = r \<and> b \<noteq> c) \<or> (a \<noteq> r \<and> b = c))"
      by blast
  }
  {
    assume h: "is_valid_position a b \<and> ((a = r \<and> b \<noteq> c) \<or> (a \<noteq> r \<and> b = c))"
    with board_coords [of a b]
    have "a \<in> set [0, 1, 2, 3, 4, 5, 6, 7]" and "b \<in> set [0, 1, 2, 3, 4, 5, 6, 7]"
      by blast+
    with r c h rook_squares_all show "(a, b) \<in> set (get_rook_moves r c)"
      by blast
  }
qed

lemma parse_generated:
  assumes "sound_moves r c moves"
  shows "map position_to_coords (map (\<lambda>(a, b). algebraic a b) moves) = map Inr moves"
  using assms
  by (auto simp: sound_moves_def list_all_iff position_to_coords_algebraic)

section \<open>Rook move counts\<close>

text \<open>
  C5. For every valid square the rook move generator returns exactly 14 squares, 7 along
  the rank and 7 along the file, whichever square the rook stands on. For a rook on a
  valid position string \<open>get_piece_moves\<close> returns the names of the squares that
  \<open>get_rook_moves\<close> generates: 14 positions, no two the same, which parse back to the
  generated squares. The generated squares are exactly the squares of the board that
  share the row or the column of the rook's square, other than that square: 7 in its row
  and 7 in its column.
\<close>

theorem rook_has_14_moves:
  assumes "valid_algebraic position" and "lower piece_type = ''rook''"
  shows "\<exists>r c moves. position_to_coords position = Inr (r, c) \<and> is_valid_position r c
           \<and> get_piece_moves piece_type position side = Inr moves
           \<and> moves = map (\<lambda>(a, b). algebraic a b) (get_rook_moves r c)
           \<and> map position_to_coords moves = map Inr (get_rook_moves r c)
           \<and> length moves = 14 \<and> distinct moves
           \<and> length (get_rook_moves r c) = 14 \<and> distinct (get_rook_moves r c)
           \<and> (\<forall>a b. (a, b) \<in> set (get_rook_moves r c)
                 \<longleftrightarrow> is_valid_position a b \<and> ((a = r \<and> b \<noteq> c) \<or> (a \<noteq> r \<and> b = c)))
           \<and> length (filter (\<lambda>(a, b). a = r) (get_rook_moves r c)) = 7
           \<and> length (filter (\<lambda>(a, b). b = c) (get_rook_moves r c)) = 7"
proof -
  from valid_algebraic_parse [OF assms(1)]
  obtain r c where v: "is_valid_position r c" and p: "position_to_coords position = Inr (r, c)"
    by blast
  define ms where "ms = get_rook_moves r c"
  define moves where "moves = map (\<lambda>(a, b). algebraic a b) ms"
  from board_coords [OF v] rook_count_all
  have n: "length ms = 14 \<and> length (filter (\<lambda>(a, b). a = r) ms) = 7
     \<and> length (filter (\<lambda>(a, b). b = c) ms) = 7"
    unfolding ms_def by blast
  from board_coords [OF v] rook_sound_all have s: "sound_moves r c ms"
    unfolding ms_def by blast
  have g: "get_piece_moves piece_type position side = Inr moves"
    using get_piece_moves_valid [OF p v, of piece_type side] assms(2)
    by (simp add: moves_of_kind_def moves_def ms_def)
  have pb: "map position_to_coords moves = map Inr ms"
    unfolding moves_def by (rule parse_generated [OF s])
  have d: "distinct ms"
    using s by (simp add: sound_moves_def)
  have d': "distinct moves"
    unfolding moves_def using d algebraic_inj_on_sound [OF s] by (simp add: distinct_map)
  have l: "length moves = 14"
    using n by (simp add: moves_def)
  have e: "\<forall>a b. (a, b) \<in> set ms
      \<longleftrightarrow> is_valid_position a b \<and> ((a = r \<and> b \<noteq> c) \<or> (a \<noteq> r \<and> b = c))"
    unfolding ms_def using rook_squares [OF v] by blast
  show ?thesis
    using p v g pb l d' n d e moves_def unfolding ms_def by blast
qed

theorem rook_has_14_moves_witness:
  "valid_algebraic ''a1'' \<and> valid_algebraic ''d4'' \<and> lower ''rook'' = ''rook''
   \<and> (\<exists>r c moves. position_to_coords ''a1'' = Inr (r, c)
         \<and> get_piece_moves ''rook'' ''a1'' ''white'' = Inr moves
         \<and> moves = map (\<lambda>(a, b). algebraic a b) (get_rook_moves r c)
         \<and> length moves = 14 \<and> distinct moves)
   \<and> (\<exists>r c moves. position_to_coords ''d4'' = Inr (r, c)
         \<and> get_piece_moves ''rook'' ''d4'' ''white'' = Inr moves
         \<and> moves = map (\<lambda>(a, b). algebraic a b) (get_rook_moves r c)
         \<and> length moves = 14 \<and> distinct moves)"
proof -
  have a: "valid_algebraic ''a1''" and d: "valid_algebraic ''d4''"
    by (simp_all add: valid_algebraic_def lower_char_def ord_def)
  have k: "lower ''rook'' = ''rook''"
    by (simp add: lower_def lower_char_def ord_def)
  from rook_has_14_moves [OF a k, of "''white''"]
  have 1: "\<exists>r c moves. position_to_coords ''a1'' = Inr (r, c)
         \<and> get_piece_moves ''rook'' ''a1'' ''white'' = Inr moves
         \<and> moves = map (\<lambda>(a, b). algebraic a b) (get_rook_moves r c)
         \<and> length moves = 14 \<and> distinct moves"
    by blast
  from rook_has_14_moves [OF d k, of "''white''"]
  have 2: "\<exists>r c moves. position_to_coords ''d4'' = Inr (r, c)
         \<and> get_piece_moves ''rook'' ''d4'' ''white'' = Inr moves
         \<and> moves = map (\<lambda>(a, b). algebraic a b) (get_rook_moves r c)
         \<and> length moves = 14 \<and> distinct moves"
    by blast
  from a d k 1 2 show ?thesis
    by blast
qed

lemma rook_examples:
  "get_piece_moves ''rook'' ''a1'' ''white''
     = Inr [''b1'', ''c1'', ''d1'', ''e1'', ''f1'', ''g1'', ''h1'',
            ''a2'', ''a3'', ''a4'', ''a5'', ''a6'', ''a7'', ''a8'']"
  "get_piece_moves ''rook'' ''d4'' ''white''
     = Inr [''e4'', ''f4'', ''g4'', ''h4'', ''c4'', ''b4'', ''a4'',
            ''d5'', ''d6'', ''d7'', ''d8'', ''d3'', ''d2'', ''d1'']"
  by code_simp+

section \<open>Soundness of the generated moves\<close>

text \<open>
  C10. For every piece kind and every valid position string, \<open>get_piece_moves\<close> returns
  a list in which every position denotes a valid on-board square, no position occurs
  twice, and no position denotes the starting square.
\<close>

theorem get_piece_moves_sound:
  assumes "valid_algebraic position"
  shows "\<exists>moves. get_piece_moves piece_type position side = Inr moves
           \<and> (\<forall>m\<in>set moves. \<exists>r c. position_to_coords m = Inr (r, c) \<and> is_valid_position r c)
           \<and> distinct moves
           \<and> (\<forall>m\<in>set moves. position_to_coords m \<noteq> position_to_coords position)
           \<and> position \<notin> set moves \<and> lower position \<notin> set moves"
proof -
  from valid_algebraic_parse [OF assms]
  obtain r c where v: "is_valid_position r c" and p: "position_to_coords position = Inr (r, c)"
    and l: "algebraic r c = lower position"
    by blast
  define ms where "ms = moves_of_kind (lower piece_type) r c"
  define moves where "moves = map (\<lambda>(a, b). algebraic a b) ms"
  have s: "sound_moves r c ms"
    unfolding ms_def by (rule moves_of_kind_sound [OF v])
  have g: "get_piece_moves piece_type position side = Inr moves"
    unfolding moves_def ms_def by (rule get_piece_moves_valid [OF p v])
  have each: "\<exists>a b. m = algebraic a b \<and> is_valid_position a b \<and> (a, b) \<noteq> (r, c)
      \<and> position_to_coords m = Inr (a, b)" if "m \<in> set moves" for m
  proof -
    from that obtain a b where ab: "(a, b) \<in> set ms" and m: "m = algebraic a b"
      by (auto simp: moves_def)
    from s ab have "is_valid_position a b" and "(a, b) \<noteq> (r, c)"
      by (auto simp: sound_moves_def list_all_iff)
    with m show ?thesis
      by (metis position_to_coords_algebraic)
  qed
  have d: "distinct moves"
    unfolding moves_def using s algebraic_inj_on_sound [OF s]
    by (simp add: distinct_map sound_moves_def)
  have n: "position_to_coords m \<noteq> position_to_coords position" if "m \<in> set moves" for m
    using each [OF that] p by auto
  have "position_to_coords (lower position) = position_to_coords position"
    using l [symmetric] p v by (simp add: position_to_coords_algebraic)
  with n have "position \<notin> set moves" and "lower position \<notin> set moves"
    by blast+
  with g each d n show ?thesis
    by blast
qed

theorem get_piece_moves_sound_witness:
  "valid_algebraic ''d4''
   \<and> (\<exists>moves. get_piece_moves ''queen'' ''d4'' ''black'' = Inr moves
           \<and> (\<forall>m\<in>set moves. \<exists>r c. position_to_coords m = Inr (r, c) \<and> is_valid_position r c)
           \<and> distinct moves
           \<and> (\<forall>m\<in>set moves. position_to_coords m \<noteq> position_to_coords ''d4'')
           \<and> ''d4'' \<notin> set moves \<and> lower ''d4'' \<notin> set moves)"
proof -
  have d: "valid_algebraic ''d4''"
    by (simp add: valid_algebraic_def lower_char_def ord_def)
  show ?thesis
    using d get_piece_moves_sound [OF d, of "''queen''" "''black''"] by blast
qed

section \<open>Letter case of position strings\<close>

lemma ord_lower_char:
  "ord (lower_char c) =
     (if (65 \<le> ord c \<and> ord c \<le> 90) \<or> (192 \<le> ord c \<and> ord c \<le> 222 \<and> ord c \<noteq> 215)
      then ord c + 32 else ord c)"
  using ord_bounds [of c] by (auto simp: lower_char_def Let_def ord_char_of)

lemma ord_inject: "ord c = ord d \<Longrightarrow> c = d"
  by (simp add: ord_def)

lemma lower_char_idem: "lower_char (lower_char c) = lower_char c"
  by (rule ord_inject) (simp add: ord_lower_char)

lemma int_of_char_lower: "int_of_char (lower_char c) = int_of_char c"
  by (simp add: int_of_char_def Let_def ord_lower_char)

lemma position_to_coords_lower: "position_to_coords (lower p) = position_to_coords p"
proof (cases "length p = 2")
  case True
  then have "lower p ! 0 = lower_char (p ! 0)" and "lower p ! 1 = lower_char (p ! 1)"
    by (simp_all add: lower_def)
  with True show ?thesis
    by (simp add: position_to_coords_def lower_char_idem int_of_char_lower lower_def)
next
  case False
  then show ?thesis
    by (simp add: position_to_coords_def lower_def)
qed

text \<open>The starting position of \<open>can_attack\<close> is read through \<open>position_to_coords\<close>, which
  lower-cases the file letter: its letter case never matters.\<close>

lemma can_attack_from_case:
  "can_attack piece_type (lower from_pos) target_pos side
     = can_attack piece_type from_pos target_pos side"
  by (simp add: can_attack_def get_piece_moves_def position_to_coords_lower)

text \<open>
  C8. The specification has \<open>can_attack\<close> return the same result when the file letter
  of the starting or of the target position is given in upper case. The code compares
  the target string itself with the generated lower-case positions: a rook on \<open>a1\<close>
  attacks \<open>a8\<close>, also when it is placed with \<open>A1\<close>, but the same target written \<open>A8\<close> is
  reported as not attacked.
\<close>

theorem can_attack_upper_case_target:
  "can_attack ''rook'' ''a1'' ''a8'' ''white'' = Inr True
   \<and> can_attack ''rook'' ''A1'' ''a8'' ''white'' = Inr True
   \<and> can_attack ''rook'' ''a1'' ''A8'' ''white'' = Inr False"
  by code_simp

section \<open>Which strings the conversion rejects\<close>

text \<open>
  C2, as the specification states it: the conversion raises an error exactly when the
  string is malformed (wrong length, file letter outside a..h, rank outside 1..8). It
  fails on \<open>z9\<close>: the string is not a valid position, and the conversion returns the
  off-board coordinates \<open>(8, 25)\<close> without an error.
\<close>

theorem position_to_coords_accepts_off_board:
  "\<not> valid_algebraic ''z9'' \<and> position_to_coords ''z9'' = Inr (8, 25)
   \<and> \<not> is_valid_position 8 25"
  by (simp add: valid_algebraic_def position_to_coords_def int_of_char_def lower_char_def
      ord_def is_valid_position_def)

text \<open>On strings over U+0000..U+00FF: the only error is \<open>ValueError\<close>, raised exactly when
  the length is not 2 or the second character is none of the digits 0..9, and an
  accepted string is on the board exactly when it is a valid position string.\<close>

lemma position_to_coords_latin1_rejects:
  "((\<exists>e. position_to_coords p = Inl e) \<longleftrightarrow> length p \<noteq> 2 \<or> p ! 1 \<notin> set ''0123456789'')
   \<and> (\<forall>e. position_to_coords p = Inl e \<longrightarrow> e = ValueError)
   \<and> (valid_algebraic p \<longrightarrow> (\<exists>r c. position_to_coords p = Inr (r, c) \<and> is_valid_position r c))
   \<and> (\<forall>r c. position_to_coords p = Inr (r, c) \<longrightarrow> (is_valid_position r c \<longleftrightarrow> valid_algebraic p))"
proof (intro conjI)
  show "(\<exists>e. position_to_coords p = Inl e) \<longleftrightarrow> length p \<noteq> 2 \<or> p ! 1 \<notin> set ''0123456789''"
    by (simp add: position_to_coords_def int_of_char_eq Let_def)
  show "\<forall>e. position_to_coords p = Inl e \<longrightarrow> e = ValueError"
    by (simp add: position_to_coords_def int_of_char_eq Let_def)
  show "valid_algebraic p \<longrightarrow> (\<exists>r c. position_to_coords p = Inr (r, c) \<and> is_valid_position r c)"
    using valid_algebraic_parse [of p] by blast
  show "\<forall>r c. position_to_coords p = Inr (r, c) \<longrightarrow> (is_valid_position r c \<longleftrightarrow> valid_algebraic p)"
    using position_to_coords_on_board [of p] by blast
qed

text \<open>The model over U+0000..U+00FF is the conversion on arbitrary strings, with the
  tables restricted to those code points.\<close>

lemma position_to_coords_latin1:
  "position_to_coords_unicode latin1_lower latin1_int (map ord p) = position_to_coords p"
proof (cases "length p = 2")
  case True
  then have "map ord p ! 0 = ord (p ! 0)" and "map ord p ! 1 = ord (p ! 1)"
    by simp_all
  with True show ?thesis
    by (simp add: position_to_coords_unicode_def position_to_coords_def latin1_lower_def
        latin1_int_def int_of_char_eq char_of_ord Let_def)
next
  case False
  then show ?thesis
    by (simp add: position_to_coords_unicode_def position_to_coords_def)
qed

lemma ascii_tables_accept:
  assumes "ascii_tables lower_of int_of" and "valid_algebraic q"
  shows "position_to_coords_unicode lower_of int_of (map ord q) = position_to_coords q"
proof -
  from assms(2) have l: "length q = 2" and f: "lower_char (q ! 0) \<in> set ''abcdefgh''"
    and d: "q ! 1 \<in> set ''12345678''"
    by (auto simp: valid_algebraic_def)
  from l have nth: "map ord q ! 0 = ord (q ! 0)" "map ord q ! 1 = ord (q ! 1)"
    by simp_all
  from f have lo: "97 \<le> ord (lower_char (q ! 0)) \<and> ord (lower_char (q ! 0)) \<le> 104"
    unfolding file_letter_iff by (simp add: ord_def)
  have "lower_of (ord (q ! 0)) = [ord (lower_char (q ! 0))]"
  proof (cases "65 \<le> ord (q ! 0) \<and> ord (q ! 0) \<le> 90")
    case True
    with assms(1) show ?thesis
      by (simp add: ascii_tables_def ord_lower_char)
  next
    case False
    with lo have "97 \<le> ord (q ! 0) \<and> ord (q ! 0) \<le> 104 \<and> ord (lower_char (q ! 0)) = ord (q ! 0)"
      by (auto simp: ord_lower_char split: if_splits)
    with assms(1) show ?thesis
      by (simp add: ascii_tables_def)
  qed
  moreover from d have "48 \<le> ord (q ! 1) \<and> ord (q ! 1) \<le> 57"
    unfolding rank_digit_iff by simp
  with assms(1) have "int_of (ord (q ! 1)) = Some (ord (q ! 1) - 48)
      \<and> int_of_char (q ! 1) = Inr (ord (q ! 1) - 48)"
    by (simp add: ascii_tables_def int_of_char_def)
  ultimately show ?thesis
    using l nth by (simp add: position_to_coords_unicode_def position_to_coords_def)
qed

text \<open>
  C2, amended. For every input string, the conversion raises an error exactly when the
  length of the string is not 2 (\<open>ValueError\<close>), or lower-casing its first character
  does not give a single character (\<open>TypeError\<close>, as for U+0130), or \<open>int\<close> rejects its
  second character, that is, the character is no decimal digit (\<open>ValueError\<close>). An
  accepted string denotes an on-board square exactly when its first character
  lower-cases to one of a..h and its second character is a digit of value 1..8. Every
  valid position string (file a..h in either case, rank 1..8) is accepted and denotes
  an on-board square.
\<close>

theorem position_to_coords_unicode_rejects:
  "((\<exists>e. position_to_coords_unicode lower_of int_of p = Inl e)
       \<longleftrightarrow> length p \<noteq> 2 \<or> length (lower_of (p ! 0)) \<noteq> 1 \<or> int_of (p ! 1) = None)
   \<and> (position_to_coords_unicode lower_of int_of p = Inl TypeError
       \<longleftrightarrow> length p = 2 \<and> length (lower_of (p ! 0)) \<noteq> 1)
   \<and> (\<forall>e. position_to_coords_unicode lower_of int_of p = Inl e \<longrightarrow> e = TypeError \<or> e = ValueError)
   \<and> (\<forall>r c. position_to_coords_unicode lower_of int_of p = Inr (r, c) \<longrightarrow>
         (is_valid_position r c \<longleftrightarrow>
            (\<exists>l d. lower_of (p ! 0) = [l] \<and> ord CHR ''a'' \<le> l \<and> l \<le> ord CHR ''h''
                  \<and> int_of (p ! 1) = Some d \<and> 1 \<le> d \<and> d \<le> 8)))
   \<and> (ascii_tables lower_of int_of \<longrightarrow> valid_algebraic q \<longrightarrow>
         (\<exists>r c. position_to_coords_unicode lower_of int_of (map ord q) = Inr (r, c)
               \<and> is_valid_position r c \<and> position_to_coords q = Inr (r, c)))"
proof (intro conjI)
  have one: "length xs = 1 \<longleftrightarrow> (\<exists>l. xs = [l])" for xs :: "int list"
    by (cases xs) auto
  show "(\<exists>e. position_to_coords_unicode lower_of int_of p = Inl e)
       \<longleftrightarrow> length p \<noteq> 2 \<or> length (lower_of (p ! 0)) \<noteq> 1 \<or> int_of (p ! 1) = None"
    by (auto simp: position_to_coords_unicode_def Let_def one split: list.splits option.splits)
  show "position_to_coords_unicode lower_of int_of p = Inl TypeError
       \<longleftrightarrow> length p = 2 \<and> length (lower_of (p ! 0)) \<noteq> 1"
    by (auto simp: position_to_coords_unicode_def Let_def split: list.splits option.splits)
  show "\<forall>e. position_to_coords_unicode lower_of int_of p = Inl e \<longrightarrow> e = TypeError \<or> e = ValueError"
    by (auto simp: position_to_coords_unicode_def Let_def split: list.splits option.splits if_splits)
  show "\<forall>r c. position_to_coords_unicode lower_of int_of p = Inr (r, c) \<longrightarrow>
         (is_valid_position r c \<longleftrightarrow>
            (\<exists>l d. lower_of (p ! 0) = [l] \<and> ord CHR ''a'' \<le> l \<and> l \<le> ord CHR ''h''
                  \<and> int_of (p ! 1) = Some d \<and> 1 \<le> d \<and> d \<le> 8))"
    by (auto simp: position_to_coords_unicode_def Let_def is_valid_position_def ord_def
        split: list.splits option.splits if_splits)
  show "ascii_tables lower_of int_of \<longrightarrow> valid_algebraic q \<longrightarrow>
         (\<exists>r c. position_to_coords_unicode lower_of int_of (map ord q) = Inr (r, c)
               \<and> is_valid_position r c \<and> position_to_coords q = Inr (r, c))"
    using ascii_tables_accept [of lower_of int_of q] valid_algebraic_parse [of q] by auto
qed

theorem position_to_coords_unicode_rejects_witness:
  "ascii_tables lower_excerpt int_excerpt \<and> valid_algebraic ''E4''
   \<and> position_to_coords_unicode lower_excerpt int_excerpt (map ord ''E4'') = Inr (3, 4)
   \<and> is_valid_position 3 4
   \<and> position_to_coords_unicode lower_excerpt int_excerpt [101] = Inl ValueError
   \<and> position_to_coords_unicode lower_excerpt int_excerpt [101, 120] = Inl ValueError
   \<and> position_to_coords_unicode lower_excerpt int_excerpt [304, 49] = Inl TypeError
   \<and> position_to_coords_unicode lower_excerpt int_excerpt [101, 1635] = Inr (2, 4)
   \<and> is_valid_position 2 4
   \<and> position_to_coords_unicode lower_excerpt int_excerpt [122, 57] = Inr (8, 25)
   \<and> \<not> is_valid_position 8 25"
proof -
  have t: "ascii_tables lower_excerpt int_excerpt"
    by (simp add: ascii_tables_def lower_excerpt_def int_excerpt_def)
  have v: "valid_algebraic ''E4''"
    by (simp add: valid_algebraic_def lower_char_def ord_def char_of_eq_iff_ord)
  have e: "position_to_coords ''E4'' = Inr (3, 4)"
    by (simp add: position_to_coords_def int_of_char_def lower_char_def ord_def of_char_of)
  have b: "is_valid_position 3 4" "is_valid_position 2 4" "\<not> is_valid_position 8 25"
    by (simp_all add: is_valid_position_def)
  have x: "position_to_coords_unicode lower_excerpt int_excerpt [101] = Inl ValueError"
    "position_to_coords_unicode lower_excerpt int_excerpt [101, 120] = Inl ValueError"
    "position_to_coords_unicode lower_excerpt int_excerpt [304, 49] = Inl TypeError"
    "position_to_coords_unicode lower_excerpt int_excerpt [101, 1635] = Inr (2, 4)"
    "position_to_coords_unicode lower_excerpt int_excerpt [122, 57] = Inr (8, 25)"
    by (simp_all add: position_to_coords_unicode_def lower_excerpt_def int_excerpt_def ord_def)
  from position_to_coords_unicode_rejects [of lower_excerpt int_excerpt "[101, 1635]" "''E4''"] t v e
  have "position_to_coords_unicode lower_excerpt int_excerpt (map ord ''E4'') = Inr (3, 4)"
    by auto
  with t v b x show ?thesis
    by blast
qed

section \<open>The verdict of a two-piece game\<close>

lemma can_attack_geometry:
  assumes "position_to_coords from_pos = Inr (fr, fc)" and "is_valid_position fr fc"
    and "is_valid_position tr tc"
  shows "can_attack piece_type from_pos (algebraic tr tc) side
     = Inr (attacks (lower piece_type) (fr, fc) (tr, tc))"
proof -
  define ms where "ms = moves_of_kind (lower piece_type) fr fc"
  have s: "sound_moves fr fc ms"
    unfolding ms_def by (rule moves_of_kind_sound [OF assms(2)])
  have "algebraic tr tc \<in> (\<lambda>(a, b). algebraic a b) ` set ms \<longleftrightarrow> (tr, tc) \<in> set ms"
  proof
    assume "algebraic tr tc \<in> (\<lambda>(a, b). algebraic a b) ` set ms"
    then obtain a b where ab: "(a, b) \<in> set ms" and e: "algebraic tr tc = algebraic a b"
      by auto
    from s ab have "is_valid_position a b"
      by (auto simp: sound_moves_def list_all_iff)
    with e assms(3) have "tr = a \<and> tc = b"
      using algebraic_inject by blast
    with ab show "(tr, tc) \<in> set ms"
      by simp
  next
    assume "(tr, tc) \<in> set ms"
    then show "algebraic tr tc \<in> (\<lambda>(a, b). algebraic a b) ` set ms"
      by force
  qed
  then show ?thesis
    using get_piece_moves_valid [OF assms(1,2), of piece_type side]
    by (simp add: can_attack_def attacks_def ms_def)
qed

lemma supported_kind_value:
  "kind \<in> supported_kinds \<Longrightarrow> \<exists>v. PIECE_VALUES kind = Some v"
  by (auto simp: supported_kinds_def PIECE_VALUES_def)

text \<open>
  C1. For every two-piece game whose two kinds are among the five supported ones (in
  any letter case) and whose two positions are valid position strings, no error is
  raised and \<open>determine_winner\<close> applies the precedence of the specification: if exactly
  one side's piece attacks the other's square, that side wins whatever the material;
  otherwise the side with the strictly higher material value wins; otherwise the result
  is a draw. The attack tests of the game agree with the geometry on the squares.
\<close>

theorem determine_winner_precedence:
  assumes "lower wpiece \<in> supported_kinds" and "lower bpiece \<in> supported_kinds"
    and "valid_algebraic wpos" and "valid_algebraic bpos"
  shows "\<exists>w b wv bv.
           position_to_coords wpos = Inr w \<and> position_to_coords bpos = Inr b
         \<and> PIECE_VALUES (lower wpiece) = Some wv \<and> PIECE_VALUES (lower bpiece) = Some bv
         \<and> can_white_attack_black (init wpiece wpos bpiece bpos)
             = Inr (attacks (lower wpiece) w b)
         \<and> can_black_attack_white (init wpiece wpos bpiece bpos)
             = Inr (attacks (lower bpiece) b w)
         \<and> determine_winner (init wpiece wpos bpiece bpos)
             = Inr (precedence_verdict (attacks (lower wpiece) w b) (attacks (lower bpiece) b w)
                     wv bv (''white '' @ lower wpiece @ '' wins'')
                     (''black '' @ lower bpiece @ '' wins''))"
proof -
  from valid_algebraic_parse [OF assms(3)]
  obtain wr wc where wv: "is_valid_position wr wc" and wp: "position_to_coords wpos = Inr (wr, wc)"
    and wl: "lower wpos = algebraic wr wc"
    by metis
  from valid_algebraic_parse [OF assms(4)]
  obtain br bc where bv: "is_valid_position br bc" and bp: "position_to_coords bpos = Inr (br, bc)"
    and bl: "lower bpos = algebraic br bc"
    by metis
  from supported_kind_value [OF assms(1)] obtain x where x: "PIECE_VALUES (lower wpiece) = Some x"
    by blast
  from supported_kind_value [OF assms(2)] obtain y where y: "PIECE_VALUES (lower bpiece) = Some y"
    by blast
  define g where "g = init wpiece wpos bpiece bpos"
  have wl': "position_to_coords (lower wpos) = Inr (wr, wc)"
    using wp by (simp add: position_to_coords_lower)
  have bl': "position_to_coords (lower bpos) = Inr (br, bc)"
    using bp by (simp add: position_to_coords_lower)
  have kinds: "lower (lower wpiece) = lower wpiece" "lower (lower bpiece) = lower bpiece"
    by (simp_all add: lower_def lower_char_idem)
  have wa: "can_white_attack_black g = Inr (attacks (lower wpiece) (wr, wc) (br, bc))"
    using can_attack_geometry [OF wl' wv bv, of "lower wpiece" "''white''"]
    by (simp add: g_def can_white_attack_black_def init_def bl kinds)
  have ba: "can_black_attack_white g = Inr (attacks (lower bpiece) (br, bc) (wr, wc))"
    using can_attack_geometry [OF bl' bv wv, of "lower bpiece" "''black''"]
    by (simp add: g_def can_black_attack_white_def init_def wl kinds)
  have pieces: "white_piece g = lower wpiece" "black_piece g = lower bpiece"
    by (simp_all add: g_def init_def)
  have "determine_winner g
      = Inr (precedence_verdict (attacks (lower wpiece) (wr, wc) (br, bc))
               (attacks (lower bpiece) (br, bc) (wr, wc)) x y
               (''white '' @ lower wpiece @ '' wins'') (''black '' @ lower bpiece @ '' wins''))"
    unfolding determine_winner_def wa ba pieces
    by (auto simp: x y precedence_verdict_def white_wins_def black_wins_def pieces)
  with wp bp x y wa ba show ?thesis
    unfolding g_def by blast
qed

theorem determine_winner_precedence_witness:
  "lower ''Queen'' \<in> supported_kinds \<and> lower ''Knight'' \<in> supported_kinds
   \<and> valid_algebraic ''e4'' \<and> valid_algebraic ''f6''
   \<and> (\<exists>w b wv bv.
           position_to_coords ''e4'' = Inr w \<and> position_to_coords ''f6'' = Inr b
         \<and> PIECE_VALUES (lower ''Queen'') = Some wv \<and> PIECE_VALUES (lower ''Knight'') = Some bv
         \<and> can_white_attack_black (init ''Queen'' ''e4'' ''Knight'' ''f6'')
             = Inr (attacks (lower ''Queen'') w b)
         \<and> can_black_attack_white (init ''Queen'' ''e4'' ''Knight'' ''f6'')
             = Inr (attacks (lower ''Knight'') b w)
         \<and> determine_winner (init ''Queen'' ''e4'' ''Knight'' ''f6'')
             = Inr (precedence_verdict (attacks (lower ''Queen'') w b)
                     (attacks (lower ''Knight'') b w)
                     wv bv (''white '' @ lower ''Queen'' @ '' wins'')
                     (''black '' @ lower ''Knight'' @ '' wins'')))"
proof -
  have q: "lower ''Queen'' \<in> supported_kinds" and k: "lower ''Knight'' \<in> supported_kinds"
    by (simp_all add: lower_def lower_char_def ord_def supported_kinds_def char_of_eq_iff_ord)
  have e: "valid_algebraic ''e4''" and f: "valid_algebraic ''f6''"
    by (simp_all add: valid_algebraic_def lower_char_def ord_def)
  show ?thesis
    using q k e f determine_winner_precedence [OF q k e f] by blast
qed

lemma example_games:
  "determine_winner (init ''Queen'' ''e4'' ''Knight'' ''f6'') = Inr ''black knight wins''"
  "determine_winner (init ''Rook'' ''a1'' ''Bishop'' ''h8'') = Inr ''black bishop wins''"
  "determine_winner (init ''Knight'' ''b1'' ''Bishop'' ''c8'') = Inr ''draw''"
  by code_simp+

section \<open>The prediction for a position\<close>

lemma supported_lower: "kind \<in> supported_kinds \<Longrightarrow> lower kind = kind"
  by (auto simp: supported_kinds_def lower_def lower_char_def ord_def)

lemma list_pieces_eq:
  "well_formed_board board_pieces \<Longrightarrow>
   list_pieces board_pieces whites blacks
     = Inr (whites @ pieces_of ''white'' board_pieces, blacks @ pieces_of ''black'' board_pieces)"
proof (induction board_pieces whites blacks rule: list_pieces.induct)
  case (1 whites blacks)
  then show ?case
    by (simp add: pieces_of_def)
next
  case (2 row col piece_info rest whites blacks)
  from "2.prems" have v: "is_valid_position row col"
    and c: "color piece_info = ''white'' \<or> color piece_info = ''black''"
    and r: "well_formed_board rest"
    by (simp_all add: well_formed_board_def)
  have pos: "coords_to_position row col = Inr (algebraic row col)"
    by (rule coords_to_position_valid [OF v])
  from c show ?case
  proof
    assume w: "color piece_info = ''white''"
    with "2.IH"(1) [OF pos refl w r] pos show ?thesis
      by (simp add: pieces_of_def listed_def)
  next
    assume b: "color piece_info = ''black''"
    then have nw: "color piece_info \<noteq> ''white''"
      by simp
    with "2.IH"(2) [OF pos refl nw b r] pos b show ?thesis
      by (simp add: pieces_of_def listed_def)
  qed
qed

lemma pieces_of_ok:
  "well_formed_board board_pieces \<Longrightarrow> list_all listed_ok (pieces_of side board_pieces)"
  by (auto simp: well_formed_board_def pieces_of_def list_all_iff listed_ok_def listed_def)

lemma can_attack_listed:
  assumes "listed_ok a" and "listed_ok d"
  shows "can_attack (listed_kind a) (listed_position a) (listed_position d) side
     = Inr (attacks (listed_kind a) (listed_coords a) (listed_coords d))"
proof -
  from assms(1) have va: "is_valid_position (fst (listed_coords a)) (snd (listed_coords a))"
    and pa: "listed_position a = algebraic (fst (listed_coords a)) (snd (listed_coords a))"
    and ka: "lower (listed_kind a) = listed_kind a"
    by (simp_all add: listed_ok_def supported_lower)
  from assms(2) have vd: "is_valid_position (fst (listed_coords d)) (snd (listed_coords d))"
    and pd: "listed_position d = algebraic (fst (listed_coords d)) (snd (listed_coords d))"
    by (simp_all add: listed_ok_def)
  have "position_to_coords (listed_position a) = Inr (fst (listed_coords a), snd (listed_coords a))"
    unfolding pa by (rule position_to_coords_algebraic [OF va])
  from can_attack_geometry [OF this va vd, of "listed_kind a" side] show ?thesis
    by (simp add: pd [symmetric] ka)
qed

lemma count_against_eq:
  "listed_ok a \<Longrightarrow> list_all listed_ok defenders \<Longrightarrow>
   count_against a defenders side n
     = Inr (n + int (length (filter
         (\<lambda>d. attacks (listed_kind a) (listed_coords a) (listed_coords d)) defenders)))"
  by (induction defenders arbitrary: n) (simp_all add: can_attack_listed)

lemma attack_pairs_Cons:
  "length (attack_pairs (a # attackers) defenders)
     = length (filter (\<lambda>d. attacks (listed_kind a) (listed_coords a) (listed_coords d)) defenders)
       + length (attack_pairs attackers defenders)"
  by (simp add: attack_pairs_def filter_map comp_def)

lemma count_attacks_eq:
  "list_all listed_ok attackers \<Longrightarrow> list_all listed_ok defenders \<Longrightarrow>
   count_attacks attackers defenders side n
     = Inr (n + int (length (attack_pairs attackers defenders)))"
proof (induction attackers arbitrary: n)
  case Nil
  then show ?case
    by (simp add: attack_pairs_def)
next
  case (Cons a attackers)
  then show ?case
    by (simp add: count_against_eq attack_pairs_Cons)
qed

lemma total_value_eq:
  "list_all listed_ok pieces \<Longrightarrow> total_value pieces acc = Inr (acc + material_value pieces)"
proof (induction pieces arbitrary: acc)
  case Nil
  then show ?case
    by (simp add: material_value_def)
next
  case (Cons p pieces)
  from Cons.prems have p: "listed_ok p" and rest: "list_all listed_ok pieces"
    by simp_all
  from p have "listed_kind p \<in> supported_kinds"
    by (simp add: listed_ok_def)
  with supported_kind_value [of "listed_kind p"] Cons.IH [OF rest] show ?case
    by (auto simp: material_value_def)
qed

lemma analyze_position_eq:
  assumes "well_formed_board board_pieces" and "2 \<le> length board_pieces"
  shows "analyze_position board_pieces =
     Inr (Some
       (if material_value (pieces_of ''white'' board_pieces)
             > material_value (pieces_of ''black'' board_pieces)
           \<and> length (attack_pairs (pieces_of ''white'' board_pieces) (pieces_of ''black'' board_pieces))
             \<ge> length (attack_pairs (pieces_of ''black'' board_pieces) (pieces_of ''white'' board_pieces))
        then WHITE_IS_LIKELY_TO_WIN
        else if material_value (pieces_of ''black'' board_pieces)
             > material_value (pieces_of ''white'' board_pieces)
           \<and> length (attack_pairs (pieces_of ''black'' board_pieces) (pieces_of ''white'' board_pieces))
             \<ge> length (attack_pairs (pieces_of ''white'' board_pieces) (pieces_of ''black'' board_pieces))
        then BLACK_IS_LIKELY_TO_WIN
        else POSITION_IS_ROUGHLY_EQUAL))"
proof -
  have w: "list_all listed_ok (pieces_of ''white'' board_pieces)"
    and b: "list_all listed_ok (pieces_of ''black'' board_pieces)"
    using assms(1) by (simp_all add: pieces_of_ok)
  show ?thesis
    using assms(2)
    by (simp add: analyze_position_def list_pieces_eq [OF assms(1)]
        count_attacks_eq [OF w b] count_attacks_eq [OF b w]
        total_value_eq [OF w] total_value_eq [OF b])
qed

text \<open>
  C4, as the specification states it: outside the case of one piece per side the
  prediction favours a side iff that side has strictly more attack pairs and at least
  equal material. It fails in both directions. With white rooks on a1 and b2 against a
  black knight on h8 no piece attacks another (0 pairs each way), yet the prediction is
  for white; with white knights on b1 and h1 against black bishops on c3 and b8, white
  has the only attack pair and the material is equal (6 each), yet the position is
  called roughly equal.
\<close>

theorem prediction_not_by_attack_count:
  "analyze_position rooks_against_knight = Inr (Some WHITE_IS_LIKELY_TO_WIN)
   \<and> length (attack_pairs (pieces_of ''white'' rooks_against_knight)
               (pieces_of ''black'' rooks_against_knight)) = 0
   \<and> length (attack_pairs (pieces_of ''black'' rooks_against_knight)
               (pieces_of ''white'' rooks_against_knight)) = 0
   \<and> length (pieces_of ''white'' rooks_against_knight) = 2
   \<and> analyze_position knights_against_bishops = Inr (Some POSITION_IS_ROUGHLY_EQUAL)
   \<and> length (attack_pairs (pieces_of ''white'' knights_against_bishops)
               (pieces_of ''black'' knights_against_bishops)) = 1
   \<and> length (attack_pairs (pieces_of ''black'' knights_against_bishops)
               (pieces_of ''white'' knights_against_bishops)) = 0
   \<and> material_value (pieces_of ''white'' knights_against_bishops) = 6
   \<and> material_value (pieces_of ''black'' knights_against_bishops) = 6
   \<and> length (pieces_of ''white'' knights_against_bishops) = 2"
  by code_simp

text \<open>
  C4, amended. For every position of at least two pieces (the GUI makes no special case
  of one piece per side) the prediction favours a side iff that side has strictly
  higher total material value and at least as many attack pairs as the other side;
  otherwise the position is called roughly equal.
\<close>

theorem analyze_position_prediction:
  assumes "well_formed_board board_pieces" and "2 \<le> length board_pieces"
  shows "\<exists>verdict. analyze_position board_pieces = Inr (Some verdict)
     \<and> (verdict = WHITE_IS_LIKELY_TO_WIN \<longleftrightarrow>
          material_value (pieces_of ''white'' board_pieces)
            > material_value (pieces_of ''black'' board_pieces)
          \<and> length (attack_pairs (pieces_of ''white'' board_pieces) (pieces_of ''black'' board_pieces))
            \<ge> length (attack_pairs (pieces_of ''black'' board_pieces) (pieces_of ''white'' board_pieces)))
     \<and> (verdict = BLACK_IS_LIKELY_TO_WIN \<longleftrightarrow>
          material_value (pieces_of ''black'' board_pieces)
            > material_value (pieces_of ''white'' board_pieces)
          \<and> length (attack_pairs (pieces_of ''black'' board_pieces) (pieces_of ''white'' board_pieces))
            \<ge> length (attack_pairs (pieces_of ''white'' board_pieces) (pieces_of ''black'' board_pieces)))
     \<and> (verdict \<noteq> WHITE_IS_LIKELY_TO_WIN \<and> verdict \<noteq> BLACK_IS_LIKELY_TO_WIN
          \<longrightarrow> verdict = POSITION_IS_ROUGHLY_EQUAL)"
  unfolding analyze_position_eq [OF assms] by auto

theorem analyze_position_prediction_witness:
  "well_formed_board rooks_against_knight \<and> 2 \<le> length rooks_against_knight
   \<and> (\<exists>verdict. analyze_position rooks_against_knight = Inr (Some verdict)
     \<and> (verdict = WHITE_IS_LIKELY_TO_WIN \<longleftrightarrow>
          material_value (pieces_of ''white'' rooks_against_knight)
            > material_value (pieces_of ''black'' rooks_against_knight)
          \<and> length (attack_pairs (pieces_of ''white'' rooks_against_knight) (pieces_of ''black'' rooks_against_knight))
            \<ge> length (attack_pairs (pieces_of ''black'' rooks_against_knight) (pieces_of ''white'' rooks_against_knight)))
     \<and> (verdict = BLACK_IS_LIKELY_TO_WIN \<longleftrightarrow>
          material_value (pieces_of ''black'' rooks_against_knight)
            > material_value (pieces_of ''white'' rooks_against_knight)
          \<and> length (attack_pairs (pieces_of ''black'' rooks_against_knight) (pieces_of ''white'' rooks_against_knight))
            \<ge> length (attack_pairs (pieces_of ''white'' rooks_against_knight) (pieces_of ''black'' rooks_against_knight)))
     \<and> (verdict \<noteq> WHITE_IS_LIKELY_TO_WIN \<and> verdict \<noteq> BLACK_IS_LIKELY_TO_WIN
          \<longrightarrow> verdict = POSITION_IS_ROUGHLY_EQUAL))"
proof -
  have w: "well_formed_board rooks_against_knight"
    by (simp add: well_formed_board_def rooks_against_knight_def is_valid_position_def
        supported_kinds_def)
  have n: "2 \<le> length rooks_against_knight"
    by (simp add: rooks_against_knight_def)
  show ?thesis
    using w n analyze_position_prediction [OF w n] by blast
qed

end
